theory Spec2Isabelle
  imports Main "HOL-Library.Word" "HOL-Library.Sublist"
begin

section \<open>Strings of the runtime\<close>

text \<open>
  A JavaScript string is a finite sequence of 16-bit code units. Equality
  (\<^verbatim>\<open>===\<close>, \<^verbatim>\<open>!==\<close>) on strings is equality of these sequences.
  \<open>js\<close> writes an ASCII literal of the source as such a sequence.
\<close>

type_synonym jsstring = "16 word list"

definition js :: "string \<Rightarrow> jsstring" where
  "js s = map of_char s"

text \<open>
  \<^verbatim>\<open>String.prototype.trim\<close> removes, from both ends, the code units that are
  WhiteSpace or LineTerminator in ECMAScript: TAB, VT, FF, SP, NBSP, ZWNBSP, the
  other members of the Unicode category Zs, and LF, CR, LS, PS. All of them are
  single code units.
\<close>

definition isWhiteSpace :: "16 word \<Rightarrow> bool" where
  "isWhiteSpace c \<longleftrightarrow>
     c = 0x0009 \<or> c = 0x000A \<or> c = 0x000B \<or> c = 0x000C \<or> c = 0x000D \<or>
     c = 0x0020 \<or> c = 0x00A0 \<or> c = 0x1680 \<or>
     (0x2000 \<le> c \<and> c \<le> 0x200A) \<or>
     c = 0x2028 \<or> c = 0x2029 \<or> c = 0x202F \<or> c = 0x205F \<or>
     c = 0x3000 \<or> c = 0xFEFF"

definition trim :: "jsstring \<Rightarrow> jsstring" where
  "trim s = rev (dropWhile isWhiteSpace (rev (dropWhile isWhiteSpace s)))"



section \<open>The data model (types.ts)\<close>

record Topic =
  id_topic :: jsstring
  name_topic :: jsstring

record Category =
  id_category :: jsstring
  name_category :: jsstring
  topics_category :: "Topic list"

text \<open>The seed of App.tsx.\<close>

definition initialCategory :: Category where
  "initialCategory =
     \<lparr>id_category = js ''1'', name_category = js ''Frontend'',
      topics_category =
        [\<lparr>id_topic = js ''1'', name_topic = js ''HTML''\<rparr>,
         \<lparr>id_topic = js ''2'', name_topic = js ''CSS''\<rparr>,
         \<lparr>id_topic = js ''3'', name_topic = js ''JavaScript''\<rparr>,
         \<lparr>id_topic = js ''4'', name_topic = js ''React''\<rparr>]\<rparr>"

section \<open>The Category component\<close>

text \<open>
  The component's three \<^verbatim>\<open>useState\<close> cells. The identifier source \<^verbatim>\<open>v1\<close> of the
  uuid package is outside the repository: it is a parameter \<open>v1 :: nat \<Rightarrow> jsstring\<close>
  giving the result of its \<open>n\<close>-th call, and \<open>uuid_calls\<close> counts the calls made
  so far.
\<close>

record Category_state =
  topics :: "Topic list"
  newTopicName :: jsstring
  filter_state :: jsstring
  uuid_calls :: nat

definition Category_init :: "Category \<Rightarrow> Category_state" where
  "Category_init category =
     \<lparr>topics = topics_category category, newTopicName = [], filter_state = [],
      uuid_calls = 0\<rparr>"

definition setNewTopicName :: "jsstring \<Rightarrow> Category_state \<Rightarrow> Category_state" where
  "setNewTopicName v s = s\<lparr>newTopicName := v\<rparr>"

definition setFilter :: "jsstring \<Rightarrow> Category_state \<Rightarrow> Category_state" where
  "setFilter v s = s\<lparr>filter_state := v\<rparr>"

definition handleCreateTopic :: "(nat \<Rightarrow> jsstring) \<Rightarrow> Category_state \<Rightarrow> Category_state" where
  "handleCreateTopic v1 s =
     (if trim (newTopicName s) \<noteq> [] then
        let newTopic = \<lparr>id_topic = v1 (uuid_calls s), name_topic = trim (newTopicName s)\<rparr>
        in s\<lparr>topics := newTopic # topics s, newTopicName := [],
             uuid_calls := Suc (uuid_calls s)\<rparr>
      else s)"

definition handleDeleteTopic :: "jsstring \<Rightarrow> Category_state \<Rightarrow> Category_state" where
  "handleDeleteTopic ident s = s\<lparr>topics := filter (\<lambda>topic. id_topic topic \<noteq> ident) (topics s)\<rparr>"

definition handleUpdateTopic :: "jsstring \<Rightarrow> jsstring \<Rightarrow> Category_state \<Rightarrow> Category_state" where
  "handleUpdateTopic ident newName s =
     s\<lparr>topics := map (\<lambda>topic. if id_topic topic = ident then topic\<lparr>name_topic := newName\<rparr>
                              else topic) (topics s)\<rparr>"



text \<open>
  Two concrete identifier sources, both injective: \<open>v1_sample\<close> issues
  \<open>u\<close>, \<open>u-\<close>, \<open>u--\<close>, ... and \<open>v1_digits\<close> issues \<open>1\<close>, \<open>11\<close>, \<open>111\<close>, ...
\<close>

definition v1_sample :: "nat \<Rightarrow> jsstring" where
  "v1_sample n = 0x75 # replicate n 0x2D"

definition v1_digits :: "nat \<Rightarrow> jsstring" where
  "v1_digits n = replicate (Suc n) 0x31"

subsection \<open>Operations of the store\<close>

text \<open>
  The store's three mutating operations as the user triggers them. Create is typing
  the raw name into the new-topic input (\<^verbatim>\<open>onChange\<close> calls \<open>setNewTopicName\<close>)
  and pressing Add Topic; delete and rename are the callbacks handed to each
  Topic component.
\<close>

datatype operation = Create jsstring | Delete jsstring | Rename jsstring jsstring

fun apply_operation :: "(nat \<Rightarrow> jsstring) \<Rightarrow> Category_state \<Rightarrow> operation \<Rightarrow> Category_state" where
  "apply_operation v1 s (Create rawName) = handleCreateTopic v1 (setNewTopicName rawName s)"
| "apply_operation v1 s (Delete ident) = handleDeleteTopic ident s"
| "apply_operation v1 s (Rename ident newName) = handleUpdateTopic ident newName s"

definition run_operations :: "(nat \<Rightarrow> jsstring) \<Rightarrow> Category_state \<Rightarrow> operation list \<Rightarrow> Category_state" where
  "run_operations v1 s ops = foldl (apply_operation v1) s ops"

text \<open>An operation that is not a rename to the empty string.\<close>

fun nonempty_rename :: "operation \<Rightarrow> bool" where
  "nonempty_rename (Rename ident newName) = (newName \<noteq> [])"
| "nonempty_rename (Create rawName) = True"
| "nonempty_rename (Delete ident) = True"

text \<open>Reading the collection: the identifiers in order, and the topics of a given name.\<close>

definition topic_ids :: "Category_state \<Rightarrow> jsstring list" where
  "topic_ids s = map id_topic (topics s)"

definition topic_names :: "Category_state \<Rightarrow> jsstring list" where
  "topic_names s = map name_topic (topics s)"

definition topics_named :: "jsstring \<Rightarrow> Category_state \<Rightarrow> Topic list" where
  "topics_named n s = filter (\<lambda>topic. name_topic topic = n) (topics s)"

section \<open>The Topic component\<close>







section \<open>Rendering: the life of the Topic components\<close>













section \<open>Facts about the runtime's string functions\<close>



lemma trim_empty_iff: "trim s = [] \<longleftrightarrow> (\<forall>c \<in> set s. isWhiteSpace c)"
proof
  assume "trim s = []"
  then have all: "\<forall>x \<in> set (dropWhile isWhiteSpace s). isWhiteSpace x"
    by (simp add: trim_def)
  have "dropWhile isWhiteSpace s = []"
  proof (rule ccontr)
    assume ne: "dropWhile isWhiteSpace s \<noteq> []"
    then have "\<not> isWhiteSpace (hd (dropWhile isWhiteSpace s))"
      by (rule hd_dropWhile)
    moreover from ne have "hd (dropWhile isWhiteSpace s) \<in> set (dropWhile isWhiteSpace s)"
      by simp
    ultimately show False using all by blast
  qed
  then show "\<forall>c \<in> set s. isWhiteSpace c" by simp
next
  assume "\<forall>c \<in> set s. isWhiteSpace c"
  then have dw: "dropWhile isWhiteSpace s = []" by simp
  show "trim s = []" unfolding trim_def dw by simp
qed

lemmas seed_simps =
  Category_init_def initialCategory_def setNewTopicName_def setFilter_def js_def
  trim_def isWhiteSpace_def v1_sample_def

section \<open>Creating a topic\<close>

text \<open>
  C1. For every raw name and every collection: when the trimmed raw name is empty,
  create leaves the collection (and the rest of the state) unchanged; otherwise the
  new collection is a new topic, carrying the identifier the source issues at this
  call and the trimmed name, followed by the previous collection.
\<close>

theorem create_effect:
  "(trim (newTopicName s) = [] \<longrightarrow> handleCreateTopic v1 s = s) \<and>
   (trim (newTopicName s) \<noteq> [] \<longrightarrow>
      topics (handleCreateTopic v1 s) =
        \<lparr>id_topic = v1 (uuid_calls s), name_topic = trim (newTopicName s)\<rparr> # topics s \<and>
      uuid_calls (handleCreateTopic v1 s) = Suc (uuid_calls s))"
  by (simp add: handleCreateTopic_def Let_def)

theorem create_effect_witness:
  "trim (newTopicName (setNewTopicName [] (Category_init initialCategory))) = [] \<and>
   handleCreateTopic v1_sample (setNewTopicName [] (Category_init initialCategory)) =
     setNewTopicName [] (Category_init initialCategory) \<and>
   trim (newTopicName (setNewTopicName (js ''   '') (Category_init initialCategory))) = [] \<and>
   handleCreateTopic v1_sample (setNewTopicName (js ''   '') (Category_init initialCategory)) =
     setNewTopicName (js ''   '') (Category_init initialCategory) \<and>
   trim (newTopicName (setNewTopicName (js '' TypeScript '') (Category_init initialCategory))) \<noteq> [] \<and>
   topics (handleCreateTopic v1_sample
       (setNewTopicName (js '' TypeScript '') (Category_init initialCategory))) =
     \<lparr>id_topic = js ''u'', name_topic = js ''TypeScript''\<rparr> # topics_category initialCategory"
  using create_effect [of "setNewTopicName [] (Category_init initialCategory)" v1_sample]
    create_effect [of "setNewTopicName (js ''   '') (Category_init initialCategory)" v1_sample]
    create_effect [of "setNewTopicName (js '' TypeScript '') (Category_init initialCategory)" v1_sample]
  by (simp add: seed_simps)

text \<open>
  C9. When the trim of the input buffer is empty, create leaves the buffer and the
  collection as they are; when it is not, create empties the buffer and the
  collection grows by one topic. So the buffer changes only when a topic is added.
\<close>

theorem create_input_buffer:
  "(trim (newTopicName s) = [] \<longrightarrow>
      newTopicName (handleCreateTopic v1 s) = newTopicName s \<and>
      topics (handleCreateTopic v1 s) = topics s) \<and>
   (trim (newTopicName s) \<noteq> [] \<longrightarrow>
      newTopicName (handleCreateTopic v1 s) = [] \<and>
      length (topics (handleCreateTopic v1 s)) = Suc (length (topics s))) \<and>
   (newTopicName (handleCreateTopic v1 s) \<noteq> newTopicName s \<longrightarrow>
      newTopicName (handleCreateTopic v1 s) = [] \<and>
      length (topics (handleCreateTopic v1 s)) = Suc (length (topics s)))"
  by (simp add: handleCreateTopic_def Let_def)

theorem create_input_buffer_witness:
  "trim (js '' '' @ [0x2028, 0x00A0]) = [] \<and>
   newTopicName (handleCreateTopic v1_sample
       (setNewTopicName (js '' '' @ [0x2028, 0x00A0]) (Category_init initialCategory))) =
     js '' '' @ [0x2028, 0x00A0] \<and>
   topics (handleCreateTopic v1_sample
       (setNewTopicName (js '' '' @ [0x2028, 0x00A0]) (Category_init initialCategory))) =
     topics_category initialCategory \<and>
   trim (js ''Vue '') \<noteq> [] \<and>
   newTopicName (handleCreateTopic v1_sample
       (setNewTopicName (js ''Vue '') (Category_init initialCategory))) = [] \<and>
   newTopicName (handleCreateTopic v1_sample
       (setNewTopicName (js ''Vue '') (Category_init initialCategory))) \<noteq> js ''Vue '' \<and>
   length (topics (handleCreateTopic v1_sample
       (setNewTopicName (js ''Vue '') (Category_init initialCategory)))) = 5"
  using
    create_input_buffer [of "setNewTopicName (js '' '' @ [0x2028, 0x00A0]) (Category_init initialCategory)" v1_sample]
    create_input_buffer [of "setNewTopicName (js ''Vue '') (Category_init initialCategory)" v1_sample]
  by (simp add: seed_simps)

section \<open>Deleting a topic\<close>

text \<open>
  C2. For every identifier and every collection, delete replaces the collection
  with exactly the topics whose id differs from the identifier, in their previous
  relative order, and touches nothing else; when no topic carries the identifier
  the state is unchanged.
\<close>

theorem delete_effect:
  "topics (handleDeleteTopic ident s) = filter (\<lambda>topic. id_topic topic \<noteq> ident) (topics s) \<and>
   subseq (topics (handleDeleteTopic ident s)) (topics s) \<and>
   ident \<notin> set (topic_ids (handleDeleteTopic ident s)) \<and>
   (ident \<notin> set (topic_ids s) \<longrightarrow> handleDeleteTopic ident s = s) \<and>
   newTopicName (handleDeleteTopic ident s) = newTopicName s \<and>
   filter_state (handleDeleteTopic ident s) = filter_state s \<and>
   uuid_calls (handleDeleteTopic ident s) = uuid_calls s"
proof -
  have "ident \<notin> set (topic_ids s) \<Longrightarrow> filter (\<lambda>topic. id_topic topic \<noteq> ident) (topics s) = topics s"
    by (induction "topics s") (auto simp: topic_ids_def filter_id_conv)
  then show ?thesis
    by (auto simp: handleDeleteTopic_def topic_ids_def)
qed

theorem delete_effect_witness:
  "js ''9'' \<notin> set (topic_ids (Category_init initialCategory)) \<and>
   handleDeleteTopic (js ''9'') (Category_init initialCategory) = Category_init initialCategory \<and>
   topics (handleDeleteTopic (js ''2'') (Category_init initialCategory)) =
     [\<lparr>id_topic = js ''1'', name_topic = js ''HTML''\<rparr>,
      \<lparr>id_topic = js ''3'', name_topic = js ''JavaScript''\<rparr>,
      \<lparr>id_topic = js ''4'', name_topic = js ''React''\<rparr>]"
  using delete_effect [of "js ''9''" "Category_init initialCategory"]
    delete_effect [of "js ''2''" "Category_init initialCategory"]
  by (simp add: seed_simps topic_ids_def)

section \<open>Renaming a topic\<close>

lemma update_name_eq:
  "(topic :: Topic)\<lparr>name_topic := newName\<rparr> = \<lparr>id_topic = id_topic topic, name_topic = newName\<rparr>"
  by (cases topic) simp

lemma rename_absent:
  "ident \<notin> set (map id_topic ts) \<Longrightarrow>
   map (\<lambda>topic. if id_topic topic = ident then topic\<lparr>name_topic := newName\<rparr> else topic) ts = ts"
  by (induction ts) auto

text \<open>
  C3. For every identifier, every new name (the empty string and whitespace-only
  strings included: the name is neither trimmed nor rejected) and every collection,
  rename yields a collection of the same length in which each topic carrying the
  identifier is replaced by the topic of that identifier and the given name, and
  each other topic is as before; when no topic carries the identifier the state is
  unchanged.
\<close>

theorem rename_effect:
  "length (topics (handleUpdateTopic ident newName s)) = length (topics s) \<and>
   (\<forall>k < length (topics s).
      topics (handleUpdateTopic ident newName s) ! k =
        (if id_topic (topics s ! k) = ident
         then \<lparr>id_topic = ident, name_topic = newName\<rparr> else topics s ! k)) \<and>
   (ident \<notin> set (topic_ids s) \<longrightarrow> handleUpdateTopic ident newName s = s)"
  by (simp add: handleUpdateTopic_def topic_ids_def rename_absent update_name_eq)

theorem rename_effect_witness:
  "(0::nat) < length (topics (Category_init initialCategory)) \<and>
   topics (handleUpdateTopic (js ''1'') [] (Category_init initialCategory)) ! 0 =
     \<lparr>id_topic = js ''1'', name_topic = []\<rparr> \<and>
   topics (handleUpdateTopic (js ''1'') (js ''  '') (Category_init initialCategory)) ! 0 =
     \<lparr>id_topic = js ''1'', name_topic = js ''  ''\<rparr> \<and>
   topics (handleUpdateTopic (js ''2'') (js ''Foo'') (Category_init initialCategory)) ! 0 =
     \<lparr>id_topic = js ''1'', name_topic = js ''HTML''\<rparr> \<and>
   js ''9'' \<notin> set (topic_ids (Category_init initialCategory)) \<and>
   handleUpdateTopic (js ''9'') (js ''Foo'') (Category_init initialCategory) =
     Category_init initialCategory"
  using rename_effect [of "js ''1''" "[]" "Category_init initialCategory"]
    rename_effect [of "js ''1''" "js ''  ''" "Category_init initialCategory"]
    rename_effect [of "js ''2''" "js ''Foo''" "Category_init initialCategory"]
    rename_effect [of "js ''9''" "js ''Foo''" "Category_init initialCategory"]
  by (simp add: seed_simps topic_ids_def)

text \<open>
  C10. For every identifier and every new name, rename keeps the length of the
  collection and the sequence of identifiers; a topic with another identifier is
  unchanged, a topic at any position differs from the previous one at that position
  in its name at most, and the rest of the state is untouched.
\<close>

theorem rename_frame:
  "length (topics (handleUpdateTopic ident newName s)) = length (topics s) \<and>
   topic_ids (handleUpdateTopic ident newName s) = topic_ids s \<and>
   (\<forall>k < length (topics s).
      id_topic (topics s ! k) \<noteq> ident \<longrightarrow>
      topics (handleUpdateTopic ident newName s) ! k = topics s ! k) \<and>
   (\<forall>k < length (topics s).
      topics (handleUpdateTopic ident newName s) ! k =
        (topics s ! k)\<lparr>name_topic := name_topic (topics (handleUpdateTopic ident newName s) ! k)\<rparr>) \<and>
   newTopicName (handleUpdateTopic ident newName s) = newTopicName s \<and>
   filter_state (handleUpdateTopic ident newName s) = filter_state s \<and>
   uuid_calls (handleUpdateTopic ident newName s) = uuid_calls s"
  by (simp add: handleUpdateTopic_def topic_ids_def comp_def)

theorem rename_frame_witness:
  "(1::nat) < length (topics (Category_init initialCategory)) \<and>
   topic_ids (handleUpdateTopic (js ''1'') (js ''Foo'') (Category_init initialCategory)) =
     [js ''1'', js ''2'', js ''3'', js ''4''] \<and>
   id_topic (topics (Category_init initialCategory) ! 1) \<noteq> js ''1'' \<and>
   topics (handleUpdateTopic (js ''1'') (js ''Foo'') (Category_init initialCategory)) ! 1 =
     \<lparr>id_topic = js ''2'', name_topic = js ''CSS''\<rparr> \<and>
   topics (handleUpdateTopic (js ''1'') (js ''Foo'') (Category_init initialCategory)) ! 0 =
     \<lparr>id_topic = js ''1'', name_topic = js ''Foo''\<rparr>"
  using rename_frame [of "js ''1''" "js ''Foo''" "Category_init initialCategory"]
  by (simp add: seed_simps topic_ids_def handleUpdateTopic_def)

lemma named_after_rename_absent:
  "ident \<notin> set (map id_topic ts) \<Longrightarrow>
   \<forall>topic \<in> set ts. id_topic topic \<noteq> ident \<longrightarrow> name_topic topic \<noteq> n \<Longrightarrow>
   filter (\<lambda>topic. name_topic topic = n)
     (map (\<lambda>topic. if id_topic topic = ident then topic\<lparr>name_topic := n\<rparr> else topic) ts) = []"
  by (induction ts) auto

lemma named_after_rename_present:
  "distinct (map id_topic ts) \<Longrightarrow> ident \<in> set (map id_topic ts) \<Longrightarrow>
   \<forall>topic \<in> set ts. id_topic topic \<noteq> ident \<longrightarrow> name_topic topic \<noteq> n \<Longrightarrow>
   filter (\<lambda>topic. name_topic topic = n)
     (map (\<lambda>topic. if id_topic topic = ident then topic\<lparr>name_topic := n\<rparr> else topic) ts) =
     [\<lparr>id_topic = ident, name_topic = n\<rparr>]"
proof (induction ts)
  case Nil
  then show ?case by simp
next
  case (Cons t ts)
  show ?case
  proof (cases "id_topic t = ident")
    case True
    with Cons.prems have "ident \<notin> set (map id_topic ts)" by auto
    moreover from Cons.prems
    have "\<forall>topic \<in> set ts. id_topic topic \<noteq> ident \<longrightarrow> name_topic topic \<noteq> n" by simp
    ultimately have "filter (\<lambda>topic. name_topic topic = n)
        (map (\<lambda>topic. if id_topic topic = ident then topic\<lparr>name_topic := n\<rparr> else topic) ts) = []"
      by (rule named_after_rename_absent)
    with True show ?thesis by (simp add: update_name_eq)
  next
    case False
    with Cons.prems have "name_topic t \<noteq> n" by simp
    moreover from False Cons.prems have "ident \<in> set (map id_topic ts)" by auto
    moreover from Cons.prems have "distinct (map id_topic ts)" by simp
    moreover from Cons.prems
    have "\<forall>topic \<in> set ts. id_topic topic \<noteq> ident \<longrightarrow> name_topic topic \<noteq> n" by simp
    ultimately show ?thesis using False Cons.IH by simp
  qed
qed

text \<open>
  C7, as amended. For every collection whose identifiers are pairwise distinct, every
  identifier present in it and every new name that no topic with another identifier
  carries (in particular \<open>Foo\<close>), after rename the topics of that name are exactly
  one, and it carries the given identifier; the identifiers of the collection are as
  before.
\<close>

theorem rename_round_trip:
  assumes "distinct (topic_ids s)"
    and "ident \<in> set (topic_ids s)"
    and "\<forall>topic \<in> set (topics s). id_topic topic \<noteq> ident \<longrightarrow> name_topic topic \<noteq> newName"
  shows "topics_named newName (handleUpdateTopic ident newName s) =
           [\<lparr>id_topic = ident, name_topic = newName\<rparr>] \<and>
         topic_ids (handleUpdateTopic ident newName s) = topic_ids s"
  using assms named_after_rename_present [of "topics s" ident newName]
  by (simp add: topics_named_def handleUpdateTopic_def topic_ids_def comp_def)

theorem rename_round_trip_witness:
  "distinct (topic_ids (Category_init initialCategory)) \<and>
   js ''3'' \<in> set (topic_ids (Category_init initialCategory)) \<and>
   topics_named (js ''Foo'') (Category_init initialCategory) = [] \<and>
   topics_named (js ''Foo'') (handleUpdateTopic (js ''3'') (js ''Foo'') (Category_init initialCategory)) =
     [\<lparr>id_topic = js ''3'', name_topic = js ''Foo''\<rparr>]"
proof -
  have d: "distinct (topic_ids (Category_init initialCategory))"
    by (simp add: seed_simps topic_ids_def)
  have m: "js ''3'' \<in> set (topic_ids (Category_init initialCategory))"
    by (simp add: seed_simps topic_ids_def)
  have o: "\<forall>topic \<in> set (topics (Category_init initialCategory)).
      id_topic topic \<noteq> js ''3'' \<longrightarrow> name_topic topic \<noteq> js ''Foo''"
    by (simp add: seed_simps)
  have e: "topics_named (js ''Foo'') (Category_init initialCategory) = []"
    by (simp add: topics_named_def seed_simps)
  from rename_round_trip [OF d m o] d m e show ?thesis by blast
qed

text \<open>
  The claim as stated, for every collection, fails: a second topic may already be
  named \<open>Foo\<close>, and two topics may share the identifier.
\<close>

theorem rename_round_trip_counterexample:
  "js ''2'' \<in> set (topic_ids
      \<lparr>topics = [\<lparr>id_topic = js ''1'', name_topic = js ''Foo''\<rparr>,
                 \<lparr>id_topic = js ''2'', name_topic = js ''CSS''\<rparr>],
       newTopicName = [], filter_state = [], uuid_calls = 0\<rparr>) \<and>
   topics_named (js ''Foo'') (handleUpdateTopic (js ''2'') (js ''Foo'')
      \<lparr>topics = [\<lparr>id_topic = js ''1'', name_topic = js ''Foo''\<rparr>,
                 \<lparr>id_topic = js ''2'', name_topic = js ''CSS''\<rparr>],
       newTopicName = [], filter_state = [], uuid_calls = 0\<rparr>) =
     [\<lparr>id_topic = js ''1'', name_topic = js ''Foo''\<rparr>,
      \<lparr>id_topic = js ''2'', name_topic = js ''Foo''\<rparr>] \<and>
   js ''1'' \<in> set (topic_ids
      \<lparr>topics = [\<lparr>id_topic = js ''1'', name_topic = js ''HTML''\<rparr>,
                 \<lparr>id_topic = js ''1'', name_topic = js ''CSS''\<rparr>],
       newTopicName = [], filter_state = [], uuid_calls = 0\<rparr>) \<and>
   topics_named (js ''Foo'') (handleUpdateTopic (js ''1'') (js ''Foo'')
      \<lparr>topics = [\<lparr>id_topic = js ''1'', name_topic = js ''HTML''\<rparr>,
                 \<lparr>id_topic = js ''1'', name_topic = js ''CSS''\<rparr>],
       newTopicName = [], filter_state = [], uuid_calls = 0\<rparr>) =
     [\<lparr>id_topic = js ''1'', name_topic = js ''Foo''\<rparr>,
      \<lparr>id_topic = js ''1'', name_topic = js ''Foo''\<rparr>]"
  by (simp add: topics_named_def handleUpdateTopic_def topic_ids_def js_def)

section \<open>The filtered view\<close>



section \<open>The edit mode of a topic\<close>




















section \<open>Invariants over sequences of operations\<close>

lemma inj_v1_sample: "inj v1_sample"
  by (simp add: inj_def v1_sample_def)

lemma inj_v1_digits: "inj v1_digits"
  by (simp add: inj_def v1_digits_def)

lemma run_operations_Nil: "run_operations v1 s [] = s"
  by (simp add: run_operations_def)

lemma run_operations_Cons:
  "run_operations v1 s (op # ops) = run_operations v1 (apply_operation v1 s op) ops"
  by (simp add: run_operations_def)

text \<open>
  The collection's identifiers are pairwise distinct, and each is a seed identifier
  or one that the source has issued so far.
\<close>

lemma ids_create:
  assumes "inj v1" and "range v1 \<inter> seed = {}"
    and "distinct (topic_ids s)"
    and "set (topic_ids s) \<subseteq> seed \<union> v1 ` {..<uuid_calls s}"
  shows "distinct (topic_ids (handleCreateTopic v1 s)) \<and>
         set (topic_ids (handleCreateTopic v1 s)) \<subseteq>
           seed \<union> v1 ` {..<uuid_calls (handleCreateTopic v1 s)}"
proof (cases "trim (newTopicName s) = []")
  case True
  with assms show ?thesis by (simp add: handleCreateTopic_def)
next
  case False
  from assms(2) have "v1 (uuid_calls s) \<notin> seed" by auto
  moreover from assms(1) have "v1 (uuid_calls s) \<notin> v1 ` {..<uuid_calls s}"
    by (auto simp: inj_def)
  ultimately have new: "v1 (uuid_calls s) \<notin> set (topic_ids s)"
    using assms(4) by auto
  have "v1 ` {..<uuid_calls s} \<subseteq> v1 ` {..<Suc (uuid_calls s)}"
    by auto
  with assms(4) have "set (topic_ids s) \<subseteq> seed \<union> v1 ` {..<Suc (uuid_calls s)}"
    by blast
  with False new assms(3) show ?thesis
    by (simp add: handleCreateTopic_def Let_def topic_ids_def)
qed

lemma ids_step:
  assumes "inj v1" and "range v1 \<inter> seed = {}"
    and "distinct (topic_ids s)"
    and "set (topic_ids s) \<subseteq> seed \<union> v1 ` {..<uuid_calls s}"
  shows "distinct (topic_ids (apply_operation v1 s op)) \<and>
         set (topic_ids (apply_operation v1 s op)) \<subseteq>
           seed \<union> v1 ` {..<uuid_calls (apply_operation v1 s op)}"
proof (cases op)
  case (Create rawName)
  have "topic_ids (setNewTopicName rawName s) = topic_ids s"
    and "uuid_calls (setNewTopicName rawName s) = uuid_calls s"
    by (simp_all add: setNewTopicName_def topic_ids_def)
  with assms ids_create [of v1 seed "setNewTopicName rawName s"] Create
  show ?thesis by simp
next
  case (Delete ident)
  from assms(3) have "distinct (topic_ids (handleDeleteTopic ident s))"
    by (simp add: handleDeleteTopic_def topic_ids_def distinct_map_filter)
  moreover have "set (topic_ids (handleDeleteTopic ident s)) \<subseteq> set (topic_ids s)"
    by (auto simp: handleDeleteTopic_def topic_ids_def)
  moreover have "uuid_calls (handleDeleteTopic ident s) = uuid_calls s"
    by (simp add: handleDeleteTopic_def)
  ultimately show ?thesis using assms(4) Delete by auto
next
  case (Rename ident newName)
  have "topic_ids (handleUpdateTopic ident newName s) = topic_ids s"
    and "uuid_calls (handleUpdateTopic ident newName s) = uuid_calls s"
    by (simp_all add: handleUpdateTopic_def topic_ids_def comp_def)
  with assms Rename show ?thesis by simp
qed

lemma ids_run:
  assumes "inj v1" and "range v1 \<inter> seed = {}"
  shows "distinct (topic_ids s) \<Longrightarrow>
         set (topic_ids s) \<subseteq> seed \<union> v1 ` {..<uuid_calls s} \<Longrightarrow>
         distinct (topic_ids (run_operations v1 s ops))"
proof (induction ops arbitrary: s)
  case Nil
  then show ?case by (simp add: run_operations_Nil)
next
  case (Cons op ops)
  from ids_step [OF assms Cons.prems, of op] Cons.IH [of "apply_operation v1 s op"]
  show ?case by (simp add: run_operations_Cons)
qed

lemma names_step:
  "[] \<notin> set (topic_names s) \<Longrightarrow> nonempty_rename op \<Longrightarrow>
   [] \<notin> set (topic_names (apply_operation v1 s op))"
proof (cases op)
  case (Create rawName)
  assume "[] \<notin> set (topic_names s)"
  with Create show ?thesis
    by (simp add: topic_names_def handleCreateTopic_def setNewTopicName_def Let_def)
next
  case (Delete ident)
  assume "[] \<notin> set (topic_names s)"
  with Delete show ?thesis
    by (auto simp: topic_names_def handleDeleteTopic_def)
next
  case (Rename ident newName)
  assume "[] \<notin> set (topic_names s)" and "nonempty_rename op"
  with Rename show ?thesis
    by (auto simp: topic_names_def handleUpdateTopic_def split: if_splits)
qed

text \<open>
  C5, as amended. Assuming that the seed's identifiers are pairwise distinct, that
  the identifier source never returns an identifier twice, and that it never returns
  the identifier of a seed topic, the identifiers of the collection are pairwise
  distinct after every finite sequence of create, delete and rename operations.
\<close>

theorem ids_stay_distinct:
  assumes "distinct (map id_topic (topics_category category))"
    and "inj v1"
    and "range v1 \<inter> set (map id_topic (topics_category category)) = {}"
  shows "distinct (topic_ids (run_operations v1 (Category_init category) ops))"
proof (rule ids_run [OF assms(2) assms(3)])
  show "distinct (topic_ids (Category_init category))"
    using assms(1) by (simp add: topic_ids_def Category_init_def)
  show "set (topic_ids (Category_init category)) \<subseteq>
      set (map id_topic (topics_category category)) \<union> v1 ` {..<uuid_calls (Category_init category)}"
    by (simp add: topic_ids_def Category_init_def)
qed

theorem ids_stay_distinct_witness:
  "distinct (map id_topic (topics_category initialCategory)) \<and>
   inj v1_sample \<and>
   range v1_sample \<inter> set (map id_topic (topics_category initialCategory)) = {} \<and>
   distinct (topic_ids (run_operations v1_sample (Category_init initialCategory)
     [Create (js '' TypeScript''), Delete (js ''2''), Rename (js ''1'') (js ''Foo''),
      Create (js ''  ''), Create (js ''Vue'')]))"
proof -
  have d: "distinct (map id_topic (topics_category initialCategory))"
    by (simp add: initialCategory_def js_def)
  have f: "range v1_sample \<inter> set (map id_topic (topics_category initialCategory)) = {}"
    by (auto simp: initialCategory_def js_def v1_sample_def)
  from ids_stay_distinct [OF d inj_v1_sample f] d inj_v1_sample f show ?thesis by blast
qed

text \<open>
  The claim's two assumptions alone do not suffice: a source that never repeats
  itself may still issue \<open>1\<close>, the identifier of the first seed topic of App.tsx.
\<close>

theorem ids_stay_distinct_counterexample:
  "distinct (map id_topic (topics_category initialCategory)) \<and>
   inj v1_digits \<and>
   \<not> distinct (topic_ids (run_operations v1_digits (Category_init initialCategory)
     [Create (js ''TypeScript'')]))"
proof -
  have "distinct (map id_topic (topics_category initialCategory))"
    by (simp add: initialCategory_def js_def)
  moreover have "\<not> distinct (topic_ids (run_operations v1_digits (Category_init initialCategory)
     [Create (js ''TypeScript'')]))"
    by (simp add: run_operations_def handleCreateTopic_def topic_ids_def v1_digits_def seed_simps)
  ultimately show ?thesis using inj_v1_digits by blast
qed

text \<open>
  C6, as amended. For every finite sequence of create and rename operations (and
  delete operations) in which no rename gives the empty string as the new name,
  applied to a collection in which no topic has an empty name, every topic name in
  the resulting collection is non-empty. Create rejects input that is empty after
  trimming; rename commits the string it is given.
\<close>

theorem names_stay_nonempty:
  assumes "[] \<notin> set (topic_names s)"
    and "\<forall>op \<in> set ops. nonempty_rename op"
  shows "[] \<notin> set (topic_names (run_operations v1 s ops))"
  using assms
proof (induction ops arbitrary: s)
  case Nil
  then show ?case by (simp add: run_operations_Nil)
next
  case (Cons op ops)
  from Cons.prems have "[] \<notin> set (topic_names (apply_operation v1 s op))"
    by (simp add: names_step)
  moreover from Cons.prems have "\<forall>op \<in> set ops. nonempty_rename op"
    by simp
  ultimately show ?case using Cons.IH by (simp add: run_operations_Cons)
qed

theorem names_stay_nonempty_witness:
  "[] \<notin> set (topic_names (Category_init initialCategory)) \<and>
   list_all nonempty_rename
     [Create (js ''  ''), Rename (js ''1'') (js ''Foo''), Create (js '' Vue '')] \<and>
   [] \<notin> set (topic_names (run_operations v1_sample (Category_init initialCategory)
     [Create (js ''  ''), Rename (js ''1'') (js ''Foo''), Create (js '' Vue '')]))"
proof -
  have n: "[] \<notin> set (topic_names (Category_init initialCategory))"
    by (simp add: topic_names_def seed_simps)
  have r: "\<forall>op \<in> set [Create (js ''  ''), Rename (js ''1'') (js ''Foo''), Create (js '' Vue '')].
      nonempty_rename op"
    by (simp add: js_def)
  have l: "list_all nonempty_rename
     [Create (js ''  ''), Rename (js ''1'') (js ''Foo''), Create (js '' Vue '')]"
    by (simp add: js_def)
  from names_stay_nonempty [OF n r] n l show ?thesis by blast
qed

text \<open>
  Rename does not reject: the empty string is committed as a name, and a
  whitespace-only string is committed untrimmed.
\<close>

theorem names_stay_nonempty_counterexample:
  "[] \<notin> set (topic_names (Category_init initialCategory)) \<and>
   [] \<in> set (topic_names (run_operations v1_sample (Category_init initialCategory)
     [Rename (js ''1'') []])) \<and>
   topic_names (run_operations v1_sample (Category_init initialCategory)
     [Rename (js ''1'') (js ''   '')]) =
     [js ''   '', js ''CSS'', js ''JavaScript'', js ''React'']"
  by (simp add: run_operations_def handleUpdateTopic_def topic_names_def seed_simps)

end
